theory Spec2Isabelle
  imports Main "HOL-Library.Word"
begin

section \<open>The accounts table and the GORM handle\<close>

text \<open>
  \<^verbatim>\<open>main.go\<close> keeps one model, \<^verbatim>\<open>Account{ID uuid.UUID; Balance int}\<close>, in the table
  \<^verbatim>\<open>accounts\<close>. A \<^verbatim>\<open>uuid.UUID\<close> is 16 bytes; Go's \<^verbatim>\<open>int\<close> is the 64-bit two's complement
  integer of the platforms the program is built for (GORM stores it in a \<^verbatim>\<open>bigint\<close>
  column of the same width), so \<^verbatim>\<open>+\<close> and \<^verbatim>\<open>-\<close> wrap around and \<^verbatim>\<open><\<close> compares the
  signed values (\<open>sint\<close>).
\<close>

type_synonym uuid = "128 word"
type_synonym go_int = "64 word"

definition uuid_Nil :: uuid where
  "uuid_Nil = 0"

record Account =
  ID :: uuid
  Balance :: go_int

text \<open>The zero value of the struct, as declared by \<^verbatim>\<open>var fromAccount Account\<close>.\<close>

definition Account_zero :: Account where
  "Account_zero = \<lparr>ID = uuid_Nil, Balance = 0\<rparr>"

definition transferAmt :: go_int where
  "transferAmt = 100"

text \<open>
  The errors the program can see: \<^verbatim>\<open>gorm.ErrRecordNotFound\<close> (set by \<^verbatim>\<open>First\<close>), the
  store's primary-key violation (reported by an \<^verbatim>\<open>INSERT\<close>), and the \<^verbatim>\<open>fmt.Errorf\<close> of
  \<^verbatim>\<open>transferFunds\<close>, which formats the account id, its balance and the amount (the
  specification calls it \<^verbatim>\<open>InsufficientFunds\<close>). The last two are the conflict signal
  of the store and the exhaustion error of the retry executor, as the specification
  names them.
\<close>

datatype error =
    ErrRecordNotFound
  | ErrDuplicateKey uuid
  | InsufficientFunds uuid go_int go_int
  | RetryableConflict
  | RetryExhausted

text \<open>
  A \<^verbatim>\<open>*gorm.DB\<close> is a handle. The program holds two of them: \<open>Conn\<close>, the handle
  returned by \<^verbatim>\<open>gorm.Open\<close>, whose statements each run in their own implicit
  transaction, and \<open>Tx\<close>, the handle that \<^verbatim>\<open>crdbgorm.ExecuteTx\<close> passes to its callback,
  whose statements run inside the open transaction. The state keeps the rows each handle
  works on, the global \<^verbatim>\<open>acctIDs\<close>, and the values that the column default
  \<^verbatim>\<open>uuid_generate_v4()\<close> of the store yields, with the number already drawn.
\<close>

datatype gormDB = Conn | Tx

record world =
  committed :: "Account list"
  pending :: "Account list"
  acctIDs :: "uuid list"
  uuid_generate_v4 :: "nat \<Rightarrow> uuid"
  generated :: nat

definition rows :: "gormDB \<Rightarrow> world \<Rightarrow> Account list" where
  "rows db w = (case db of Conn \<Rightarrow> committed w | Tx \<Rightarrow> pending w)"

definition set_rows :: "gormDB \<Rightarrow> Account list \<Rightarrow> world \<Rightarrow> world" where
  "set_rows db rs w = (case db of Conn \<Rightarrow> w\<lparr>committed := rs\<rparr> | Tx \<Rightarrow> w\<lparr>pending := rs\<rparr>)"

text \<open>
  The table has the primary key \<^verbatim>\<open>id\<close>, and every id in it was drawn by \<^verbatim>\<open>uuid.New()\<close> or
  by \<^verbatim>\<open>uuid_generate_v4()\<close>, neither of which yields the nil UUID.
\<close>

definition wf_rows :: "Account list \<Rightarrow> bool" where
  "wf_rows rs = (distinct (map ID rs) \<and> uuid_Nil \<notin> set (map ID rs))"

section \<open>The GORM statements the program issues\<close>

text \<open>
  \<^verbatim>\<open>db.First(&dest, id)\<close>: \<^verbatim>\<open>SELECT * FROM accounts WHERE id = ? ORDER BY id LIMIT 1\<close>.
  A row that is found overwrites \<^verbatim>\<open>dest\<close>; otherwise \<^verbatim>\<open>dest\<close> is left as it was and the
  result carries \<^verbatim>\<open>ErrRecordNotFound\<close>.
\<close>

definition First :: "gormDB \<Rightarrow> Account \<Rightarrow> uuid \<Rightarrow> world \<Rightarrow> Account \<times> error option" where
  "First db dest key w =
     (case find (\<lambda>r. ID r = key) (rows db w) of
        Some r \<Rightarrow> (r, None)
      | None \<Rightarrow> (dest, Some ErrRecordNotFound))"

text \<open>An \<^verbatim>\<open>INSERT\<close> of one row; the primary key rejects an id that is already there.\<close>

definition sql_insert :: "gormDB \<Rightarrow> Account \<Rightarrow> world \<Rightarrow> error option \<times> world" where
  "sql_insert db a w =
     (if ID a \<in> set (map ID (rows db w)) then (Some (ErrDuplicateKey (ID a)), w)
      else (None, set_rows db (rows db w @ [a]) w))"

text \<open>
  \<^verbatim>\<open>db.Create(&a)\<close>: the field \<^verbatim>\<open>ID\<close> is tagged \<^verbatim>\<open>default:uuid_generate_v4()\<close>, so a zero
  \<^verbatim>\<open>ID\<close> is left out of the \<^verbatim>\<open>INSERT\<close> and the store draws the id.
\<close>

definition Create :: "gormDB \<Rightarrow> Account \<Rightarrow> world \<Rightarrow> error option \<times> world" where
  "Create db a w =
     (if ID a = uuid_Nil
      then sql_insert db (a\<lparr>ID := uuid_generate_v4 w (generated w)\<rparr>)
             (w\<lparr>generated := Suc (generated w)\<rparr>)
      else sql_insert db a w)"

text \<open>
  \<^verbatim>\<open>db.Save(&a)\<close>: with a zero primary key it is \<^verbatim>\<open>Create\<close>; otherwise it is an
  \<^verbatim>\<open>UPDATE\<close> of all fields of the row with that id, and when no row was affected the
  value is inserted.
\<close>

definition Save :: "gormDB \<Rightarrow> Account \<Rightarrow> world \<Rightarrow> error option \<times> world" where
  "Save db a w =
     (if ID a = uuid_Nil then Create db a w
      else if ID a \<in> set (map ID (rows db w))
      then (None, set_rows db (map (\<lambda>r. if ID r = ID a then a else r) (rows db w)) w)
      else Create db a w)"

text \<open>\<^verbatim>\<open>db.Where("id IN ?", ids).Delete(Account{})\<close>.\<close>

definition Delete_id_in :: "gormDB \<Rightarrow> uuid list \<Rightarrow> world \<Rightarrow> error option \<times> world" where
  "Delete_id_in db ids w = (None, set_rows db (filter (\<lambda>r. ID r \<notin> set ids) (rows db w)) w)"

section \<open>The functions of main.go\<close>

text \<open>
  \<^verbatim>\<open>transferFunds\<close> (lines 33 to 54). The results of the two \<^verbatim>\<open>First\<close> calls are not
  inspected; only the structs they fill are used.
\<close>

definition transferFunds ::
  "gormDB \<Rightarrow> uuid \<Rightarrow> uuid \<Rightarrow> go_int \<Rightarrow> world \<Rightarrow> error option \<times> world" where
  "transferFunds db fromID toID amount w =
     (let fromAccount = fst (First db Account_zero fromID w);
          toAccount = fst (First db Account_zero toID w)
      in if sint (Balance fromAccount) < sint amount
         then (Some (InsufficientFunds (ID fromAccount) (Balance fromAccount) amount), w)
         else
           let fromAccount' = fromAccount\<lparr>Balance := Balance fromAccount - amount\<rparr>;
               toAccount' = toAccount\<lparr>Balance := Balance toAccount + amount\<rparr>
           in case Save db fromAccount' w of
                (Some err, w1) \<Rightarrow> (Some err, w1)
              | (None, w1) \<Rightarrow>
                  (case Save db toAccount' w1 of
                     (Some err, w2) \<Rightarrow> (Some err, w2)
                   | (None, w2) \<Rightarrow> (None, w2)))"

text \<open>
  \<^verbatim>\<open>insertRows\<close> (lines 56 to 68). The loop runs \<open>i\<close> from 0 while \<^verbatim>\<open>i < numRows\<close>;
  \<open>uuid_New i\<close> and \<open>rand_Intn i\<close> are what \<^verbatim>\<open>uuid.New()\<close> and \<^verbatim>\<open>rand.Intn(10000)\<close>
  return in iteration \<open>i\<close>.
\<close>

function insertRows_loop ::
  "gormDB \<Rightarrow> nat \<Rightarrow> go_int \<Rightarrow> (nat \<Rightarrow> uuid) \<Rightarrow> (nat \<Rightarrow> go_int) \<Rightarrow> world \<Rightarrow> error option \<times> world"
where
  "insertRows_loop db i numRows uuid_New rand_Intn w =
     (if int i < sint numRows then
        let newID = uuid_New i;
            newBalance = rand_Intn i + transferAmt
        in case Create db \<lparr>ID = newID, Balance = newBalance\<rparr> w of
             (Some err, w1) \<Rightarrow> (Some err, w1)
           | (None, w1) \<Rightarrow>
               insertRows_loop db (Suc i) numRows uuid_New rand_Intn
                 (w1\<lparr>acctIDs := acctIDs w1 @ [newID]\<rparr>)
      else (None, w))"
  by pat_completeness auto
termination
  by (relation "measure (\<lambda>(db, i, numRows, uuid_New, rand_Intn, w). nat (sint numRows) - i)") auto

declare insertRows_loop.simps [simp del]

definition insertRows ::
  "gormDB \<Rightarrow> go_int \<Rightarrow> (nat \<Rightarrow> uuid) \<Rightarrow> (nat \<Rightarrow> go_int) \<Rightarrow> world \<Rightarrow> error option \<times> world" where
  "insertRows db numRows uuid_New rand_Intn w = insertRows_loop db 0 numRows uuid_New rand_Intn w"

text \<open>\<^verbatim>\<open>deleteAccounts\<close> (lines 79 to 87).\<close>

definition deleteAccounts :: "gormDB \<Rightarrow> world \<Rightarrow> error option \<times> world" where
  "deleteAccounts db w =
     (case Delete_id_in db (acctIDs w) w of
        (Some err, w1) \<Rightarrow> (Some err, w1)
      | (None, w1) \<Rightarrow> (None, w1))"

text \<open>
  The two units of work that \<^verbatim>\<open>main\<close> hands to \<^verbatim>\<open>crdbgorm.ExecuteTx\<close> (lines 115 to 119
  and 141 to 145). Each is a closure over \<^verbatim>\<open>db\<close> that receives the transaction handle
  \<^verbatim>\<open>tx\<close>; the first one calls \<^verbatim>\<open>insertRows(db, 5)\<close>, the second one
  \<^verbatim>\<open>transferFunds(tx, fromID, toID, transferAmt)\<close>.
\<close>

definition main_seed_unit ::
  "gormDB \<Rightarrow> (nat \<Rightarrow> uuid) \<Rightarrow> (nat \<Rightarrow> go_int) \<Rightarrow> gormDB \<Rightarrow> world \<Rightarrow> error option \<times> world" where
  "main_seed_unit db uuid_New rand_Intn tx w = insertRows db 5 uuid_New rand_Intn w"

definition main_transfer_unit ::
  "uuid \<Rightarrow> uuid \<Rightarrow> gormDB \<Rightarrow> world \<Rightarrow> error option \<times> world" where
  "main_transfer_unit fromID toID tx w = transferFunds tx fromID toID transferAmt w"

text \<open>
  The choice of the two accounts (lines 134 and 135): \<^verbatim>\<open>fromID := acctIDs[0]\<close> and
  \<^verbatim>\<open>toID := acctIDs[0:][rand.Intn(len(acctIDs))]\<close>, where \<open>r\<close> is the value that
  \<^verbatim>\<open>rand.Intn\<close> returns. With no id recorded, or an index out of range, the program
  panics (\<open>None\<close>).
\<close>

definition main_choose_ids :: "nat \<Rightarrow> world \<Rightarrow> (uuid \<times> uuid) option" where
  "main_choose_ids r w =
     (if acctIDs w = [] \<or> length (drop 0 (acctIDs w)) \<le> r then None
      else Some (acctIDs w ! 0, drop 0 (acctIDs w) ! r))"

section \<open>Reading the state\<close>

text \<open>The row with a given id, as seen through a handle.\<close>

definition account_of :: "gormDB \<Rightarrow> uuid \<Rightarrow> world \<Rightarrow> Account option" where
  "account_of db key w = find (\<lambda>r. ID r = key) (rows db w)"

text \<open>Its balance, read as a signed integer.\<close>

definition balance_of :: "gormDB \<Rightarrow> uuid \<Rightarrow> world \<Rightarrow> int option" where
  "balance_of db key w = map_option (\<lambda>r. sint (Balance r)) (account_of db key w)"

text \<open>A state in which both handles see the rows \<open>rs\<close>, for concrete runs.\<close>

definition demo_world :: "Account list \<Rightarrow> world" where
  "demo_world rs = \<lparr>committed = rs, pending = rs, acctIDs = map ID rs,
                     uuid_generate_v4 = (\<lambda>n. 4096 + of_nat n), generated = 0\<rparr>"

text \<open>The sum of the balances, read as signed integers, that a handle sees.\<close>

definition total_balance :: "gormDB \<Rightarrow> world \<Rightarrow> int" where
  "total_balance db w = sum_list (map (\<lambda>r. sint (Balance r)) (rows db w))"

text \<open>No row, seen through either handle, has a negative balance.\<close>

definition nonneg_rows :: "Account list \<Rightarrow> bool" where
  "nonneg_rows rs = list_all (\<lambda>r. 0 \<le> sint (Balance r)) rs"

definition nonneg :: "world \<Rightarrow> bool" where
  "nonneg w = (nonneg_rows (committed w) \<and> nonneg_rows (pending w))"

section \<open>Runs of the program's operations\<close>

text \<open>
  The three operations that change the table, each on some handle, with the values that
  \<^verbatim>\<open>uuid.New()\<close> and \<^verbatim>\<open>rand.Intn(10000)\<close> return during a seeding. A run performs them
  one after the other; an operation that returns an error leaves the state it reached.
\<close>

datatype operation =
    Seed gormDB go_int "nat \<Rightarrow> uuid" "nat \<Rightarrow> go_int"
  | Transfer gormDB uuid uuid go_int
  | Teardown gormDB

fun perform :: "operation \<Rightarrow> world \<Rightarrow> world" where
  "perform (Seed db numRows uuid_New rand_Intn) w = snd (insertRows db numRows uuid_New rand_Intn w)"
| "perform (Transfer db fromID toID amount) w = snd (transferFunds db fromID toID amount w)"
| "perform (Teardown db) w = snd (deleteAccounts db w)"

fun perform_all :: "operation list \<Rightarrow> world \<Rightarrow> world" where
  "perform_all [] w = w"
| "perform_all (x # xs) w = perform_all xs (perform x w)"

text \<open>
  What a run is allowed to do: \<^verbatim>\<open>rand.Intn(10000)\<close> returns a value from 0 to 9999 in
  every iteration that draws one, and a transfer has a positive amount. \<open>credit_fits\<close>
  says in addition that the credit \<^verbatim>\<open>toAccount.Balance += amount\<close> of every transfer
  stays below \<open>2 ^ 63\<close>, the first value a Go \<^verbatim>\<open>int\<close> cannot hold.
\<close>

fun allowed :: "operation \<Rightarrow> world \<Rightarrow> bool" where
  "allowed (Seed db numRows uuid_New rand_Intn) w =
     list_all (\<lambda>i. 0 \<le> sint (rand_Intn i) \<and> sint (rand_Intn i) < 10000) [0..<nat (sint numRows)]"
| "allowed (Transfer db fromID toID amount) w = (0 < sint amount)"
| "allowed (Teardown db) w = True"

fun credit_fits :: "operation \<Rightarrow> world \<Rightarrow> bool" where
  "credit_fits (Transfer db fromID toID amount) w =
     (sint (Balance (fst (First db Account_zero toID w))) + sint amount < 2 ^ 63)"
| "credit_fits x w = True"

fun allowed_all :: "operation list \<Rightarrow> world \<Rightarrow> bool" where
  "allowed_all [] w = True"
| "allowed_all (x # xs) w = (allowed x w \<and> allowed_all xs (perform x w))"

fun credit_fits_all :: "operation list \<Rightarrow> world \<Rightarrow> bool" where
  "credit_fits_all [] w = True"
| "credit_fits_all (x # xs) w = (credit_fits x w \<and> credit_fits_all xs (perform x w))"

section \<open>The retry executor\<close>

text \<open>
  Modelled from the spec: the transaction primitives of the store (section 6: begin,
  commit and rollback of a transaction), which the retry executor uses. They are
  parameters of the executor; a commit can fail.
\<close>

record 's transactions =
  tx_begin :: "'s \<Rightarrow> 's"
  tx_commit :: "'s \<Rightarrow> error option \<times> 's"
  tx_rollback :: "'s \<Rightarrow> 's"

text \<open>One more invocation of the unit of work on top of those a result already counts.\<close>

definition again :: "('r \<times> nat) \<Rightarrow> ('r \<times> nat)" where
  "again res = (fst res, Suc (snd res))"

text \<open>
  Modelled from the spec: the retry executor. \<^verbatim>\<open>main\<close> calls \<^verbatim>\<open>crdbgorm.ExecuteTx\<close>, a
  function of an imported library whose source is not part of the repository, so the
  definition follows section 4.2 of the specification: the executor begins a
  transaction and invokes the unit of work on the transaction handle; on success it
  commits; when the unit of work or the commit fails with a retryable conflict it rolls
  back and invokes the unit of work again on a fresh transaction; any other error is
  returned at once; the number of attempts is bounded by a budget, and when the budget
  is used up the result is \<open>RetryExhausted\<close>. The second component of the result
  counts the invocations of the unit of work.
\<close>

fun ExecuteTx ::
  "nat \<Rightarrow> 's transactions \<Rightarrow> (gormDB \<Rightarrow> 's \<Rightarrow> error option \<times> 's) \<Rightarrow> 's
     \<Rightarrow> (error option \<times> 's) \<times> nat" where
  "ExecuteTx 0 st f s = ((Some RetryExhausted, s), 0)"
| "ExecuteTx (Suc budget) st f s =
     (case f Tx (tx_begin st s) of
        (None, s1) \<Rightarrow>
          (case tx_commit st s1 of
             (None, s2) \<Rightarrow> ((None, s2), 1)
           | (Some e, s2) \<Rightarrow>
               if e = RetryableConflict then again (ExecuteTx budget st f (tx_rollback st s2))
               else ((Some e, tx_rollback st s2), 1))
      | (Some e, s1) \<Rightarrow>
          if e = RetryableConflict then again (ExecuteTx budget st f (tx_rollback st s1))
          else ((Some e, tx_rollback st s1), 1))"

section \<open>Facts about the statements\<close>

lemma rows_set_rows: "rows db' (set_rows db rs w) = (if db' = db then rs else rows db' w)"
  by (cases db; cases db') (simp_all add: rows_def set_rows_def)

lemma set_rows_same: "set_rows db (rows db w) w = w"
  by (cases db) (simp_all add: rows_def set_rows_def)

lemma set_rows_twice: "set_rows db rs (set_rows db rs' w) = set_rows db rs w"
  by (cases db) (simp_all add: set_rows_def)

lemma find_ID_Some: "find (\<lambda>r. ID r = k) rs = Some a \<Longrightarrow> ID a = k \<and> a \<in> set rs"
  by (induction rs) (auto split: if_splits)

lemma find_ID_None: "find (\<lambda>r. ID r = k) rs = None \<longleftrightarrow> k \<notin> set (map ID rs)"
  by (induction rs) auto

lemma map_ID_replace:
  "ID x = j \<Longrightarrow> map ID (map (\<lambda>r. if ID r = j then x else r) rs) = map ID rs"
  by (induction rs) auto

lemma find_replace:
  "ID x = j \<Longrightarrow>
   find (\<lambda>r. ID r = k) (map (\<lambda>r. if ID r = j then x else r) rs) =
     (if k = j then (if j \<in> set (map ID rs) then Some x else None)
      else find (\<lambda>r. ID r = k) rs)"
  by (induction rs) auto

lemma replace_same:
  "distinct (map ID rs) \<Longrightarrow> find (\<lambda>r. ID r = j) rs = Some x \<Longrightarrow>
   map (\<lambda>r. if ID r = j then x else r) rs = rs"
proof (induction rs)
  case Nil
  then show ?case by simp
next
  case (Cons r rs)
  show ?case
  proof (cases "ID r = j")
    case True
    with Cons.prems have "x = r" and "j \<notin> set (map ID rs)" by auto
    then have "map (\<lambda>r. if ID r = j then x else r) rs = rs"
      by (intro map_idI) auto
    with True \<open>x = r\<close> show ?thesis by simp
  next
    case False
    with Cons show ?thesis by simp
  qed
qed

lemma Save_existing:
  assumes "ID a \<noteq> uuid_Nil" and "ID a \<in> set (map ID (rows db w))"
  shows "Save db a w = (None, set_rows db (map (\<lambda>r. if ID r = ID a then a else r) (rows db w)) w)"
  using assms by (simp add: Save_def)

lemma First_found:
  "find (\<lambda>r. ID r = k) (rows db w) = Some a \<Longrightarrow> First db dest k w = (a, None)"
  by (simp add: First_def)

lemma First_missing:
  "find (\<lambda>r. ID r = k) (rows db w) = None \<Longrightarrow> First db dest k w = (dest, Some ErrRecordNotFound)"
  by (simp add: First_def)

text \<open>The state after a transfer between two rows that exist, when the balance suffices.\<close>

lemma transferFunds_existing:
  assumes wf: "uuid_Nil \<notin> set (map ID (rows db w))"
      and fa: "find (\<lambda>r. ID r = fromID) (rows db w) = Some a"
      and fb: "find (\<lambda>r. ID r = toID) (rows db w) = Some b"
      and ok: "\<not> sint (Balance a) < sint amount"
  shows "transferFunds db fromID toID amount w =
           (None, set_rows db
              (map (\<lambda>r. if ID r = toID then b\<lparr>Balance := Balance b + amount\<rparr> else r)
                 (map (\<lambda>r. if ID r = fromID then a\<lparr>Balance := Balance a - amount\<rparr> else r)
                    (rows db w))) w)"
proof -
  from fa have a: "ID a = fromID" "fromID \<in> set (map ID (rows db w))"
    using find_ID_Some [OF fa] by auto
  from fb have b: "ID b = toID" "toID \<in> set (map ID (rows db w))"
    using find_ID_Some [OF fb] by auto
  from a b wf have nn: "fromID \<noteq> uuid_Nil" "toID \<noteq> uuid_Nil" by auto
  let ?a' = "a\<lparr>Balance := Balance a - amount\<rparr>"
  let ?b' = "b\<lparr>Balance := Balance b + amount\<rparr>"
  let ?w1 = "set_rows db (map (\<lambda>r. if ID r = fromID then ?a' else r) (rows db w)) w"
  have s1: "Save db ?a' w = (None, ?w1)"
    using Save_existing [of ?a' db w] a nn by simp
  have ids1: "map ID (rows db ?w1) = map ID (rows db w)"
    using a by (simp add: rows_set_rows map_ID_replace)
  have s2: "Save db ?b' ?w1 =
      (None, set_rows db (map (\<lambda>r. if ID r = toID then ?b' else r) (rows db ?w1)) ?w1)"
    using Save_existing [of ?b' db ?w1] b nn ids1 by simp
  show ?thesis
    using ok s1 s2
    by (simp add: transferFunds_def Let_def First_found [OF fa] First_found [OF fb]
        rows_set_rows set_rows_twice)
qed

lemma sint_add_in_range:
  fixes x y :: go_int
  assumes "- (2 ^ 63) \<le> sint x + sint y" and "sint x + sint y < 2 ^ 63"
  shows "sint (x + y) = sint x + sint y"
  using assms by (simp add: sint_word_ariths signed_take_bit_int_eq_self)

lemma sint_diff_in_range:
  fixes x y :: go_int
  assumes "- (2 ^ 63) \<le> sint x - sint y" and "sint x - sint y < 2 ^ 63"
  shows "sint (x - y) = sint x - sint y"
  using assms by (simp add: sint_word_ariths signed_take_bit_int_eq_self)

lemma sint_go_int_bounds:
  fixes x :: go_int
  shows "- (2 ^ 63) \<le> sint x" and "sint x < 2 ^ 63"
  using sint_ge [of x] sint_lt [of x] by simp_all


text \<open>The two rows after a transfer between distinct accounts that exist.\<close>

lemma transferFunds_accounts_after:
  assumes "wf_rows (rows db w)"
      and "fromID \<noteq> toID"
      and "account_of db fromID w = Some a"
      and "account_of db toID w = Some b"
      and "sint amount \<le> sint (Balance a)"
  shows "fst (transferFunds db fromID toID amount w) = None
       \<and> account_of db fromID (snd (transferFunds db fromID toID amount w))
           = Some (a\<lparr>Balance := Balance a - amount\<rparr>)
       \<and> account_of db toID (snd (transferFunds db fromID toID amount w))
           = Some (b\<lparr>Balance := Balance b + amount\<rparr>)
       \<and> (\<forall>k. k \<noteq> fromID \<and> k \<noteq> toID \<longrightarrow>
             account_of db k (snd (transferFunds db fromID toID amount w)) = account_of db k w)"
proof -
  have fa: "find (\<lambda>r. ID r = fromID) (rows db w) = Some a"
   and fb: "find (\<lambda>r. ID r = toID) (rows db w) = Some b"
    using assms(3,4) by (simp_all add: account_of_def)
  have ids: "ID a = fromID" "ID b = toID"
            "fromID \<in> set (map ID (rows db w))" "toID \<in> set (map ID (rows db w))"
    using find_ID_Some [OF fa] find_ID_Some [OF fb] by auto
  have nn: "uuid_Nil \<notin> set (map ID (rows db w))"
    using assms(1) by (simp add: wf_rows_def)
  have ok: "\<not> sint (Balance a) < sint amount"
    using assms(5) by simp
  note run = transferFunds_existing [OF nn fa fb ok]
  show ?thesis
    using assms(2) ids fa fb
    by (simp add: run account_of_def rows_set_rows find_replace map_ID_replace del: map_map)
qed

text \<open>The seeding loop from iteration \<open>i\<close> on: the rows and ids it appends.\<close>

lemma acctIDs_set_rows: "acctIDs (set_rows db rs w) = acctIDs w"
  by (cases db) (simp_all add: set_rows_def)

lemma rows_acctIDs_update: "rows db (w\<lparr>acctIDs := ids\<rparr>) = rows db w"
  by (cases db) (simp_all add: rows_def)

lemma Create_given_id:
  "ID a \<noteq> uuid_Nil \<Longrightarrow>
   Create db a w =
     (if ID a \<in> set (map ID (rows db w)) then (Some (ErrDuplicateKey (ID a)), w)
      else (None, set_rows db (rows db w @ [a]) w))"
  by (simp add: Create_def sql_insert_def)

lemma insertRows_loop_effect:
  assumes "\<forall>j. i \<le> j \<and> int j < sint numRows \<longrightarrow> uuid_New j \<noteq> uuid_Nil"
  shows "\<exists>k. i \<le> k \<and> k \<le> max i (nat (sint numRows))
          \<and> rows db (snd (insertRows_loop db i numRows uuid_New rand_Intn w))
              = rows db w @ map (\<lambda>j. \<lparr>ID = uuid_New j, Balance = rand_Intn j + transferAmt\<rparr>) [i..<k]
          \<and> acctIDs (snd (insertRows_loop db i numRows uuid_New rand_Intn w))
              = acctIDs w @ map uuid_New [i..<k]
          \<and> (fst (insertRows_loop db i numRows uuid_New rand_Intn w) = None
               \<longrightarrow> k = max i (nat (sint numRows)))"
  using assms
proof (induction db i numRows uuid_New rand_Intn w rule: insertRows_loop.induct)
  case (1 db i numRows uuid_New rand_Intn w)
  let ?a = "\<lparr>ID = uuid_New i, Balance = rand_Intn i + transferAmt\<rparr>"
  let ?mk = "\<lambda>j. \<lparr>ID = uuid_New j, Balance = rand_Intn j + transferAmt\<rparr>"
  show ?case
  proof (cases "int i < sint numRows")
    case False
    then have "insertRows_loop db i numRows uuid_New rand_Intn w = (None, w)"
      by (subst insertRows_loop.simps) simp
    moreover from False have "max i (nat (sint numRows)) = i" by simp
    ultimately show ?thesis
      by (intro exI [of _ i]) simp
  next
    case True
    then have nn: "ID ?a \<noteq> uuid_Nil"
      using "1.prems" by simp
    show ?thesis
    proof (cases "uuid_New i \<in> set (map ID (rows db w))")
      case dup: True
      have "insertRows_loop db i numRows uuid_New rand_Intn w
              = (Some (ErrDuplicateKey (uuid_New i)), w)"
        using True dup by (subst insertRows_loop.simps) (simp add: Create_given_id [OF nn] Let_def)
      then show ?thesis
        by (intro exI [of _ i]) simp
    next
      case fresh: False
      let ?w1 = "set_rows db (rows db w @ [?a]) w"
      let ?w2 = "?w1\<lparr>acctIDs := acctIDs ?w1 @ [uuid_New i]\<rparr>"
      have cr: "Create db ?a w = (None, ?w1)"
        using fresh by (simp add: Create_given_id [OF nn])
      have step: "insertRows_loop db i numRows uuid_New rand_Intn w
                    = insertRows_loop db (Suc i) numRows uuid_New rand_Intn ?w2"
        using True by (subst insertRows_loop.simps) (simp add: cr Let_def)
      have "\<forall>j. Suc i \<le> j \<and> int j < sint numRows \<longrightarrow> uuid_New j \<noteq> uuid_Nil"
        using "1.prems" by simp
      from "1.IH" [OF True refl refl cr [symmetric] refl this]
      obtain k where k: "Suc i \<le> k \<and> k \<le> max (Suc i) (nat (sint numRows))
        \<and> rows db (snd (insertRows_loop db (Suc i) numRows uuid_New rand_Intn ?w2))
           = rows db ?w2 @ map ?mk [Suc i..<k]
        \<and> acctIDs (snd (insertRows_loop db (Suc i) numRows uuid_New rand_Intn ?w2))
           = acctIDs ?w2 @ map uuid_New [Suc i..<k]
        \<and> (fst (insertRows_loop db (Suc i) numRows uuid_New rand_Intn ?w2) = None
           \<longrightarrow> k = max (Suc i) (nat (sint numRows)))" ..
      then have k1: "Suc i \<le> k" by simp
      have upt: "[i..<k] = i # [Suc i..<k]"
        using k1 by (simp add: upt_conv_Cons)
      have mx: "max (Suc i) (nat (sint numRows)) = max i (nat (sint numRows))"
        using True by simp
      show ?thesis
        using k mx
        by (intro exI [of _ k])
           (simp add: step upt rows_acctIDs_update rows_set_rows acctIDs_set_rows)
    qed
  qed
qed

lemma seeded_balance_range:
  fixes r :: go_int
  assumes "0 \<le> sint r" and "sint r < 10000"
  shows "sint (r + transferAmt) = sint r + 100"
proof -
  have "sint (transferAmt :: go_int) = 100"
    by (simp add: transferAmt_def)
  then show ?thesis
    using assms sint_add_in_range [of r transferAmt] by simp
qed

section \<open>The table stays well-formed\<close>

text \<open>
  The statements never store the nil UUID as an id and never store an id twice, as long
  as the ids that the store draws are not nil; so every table the program reaches from
  a well-formed one is well-formed.
\<close>

lemma gen_set_rows: "uuid_generate_v4 (set_rows db rs w) = uuid_generate_v4 w"
  by (cases db) (simp_all add: set_rows_def)

lemma gen_sql_insert: "uuid_generate_v4 (snd (sql_insert db a w)) = uuid_generate_v4 w"
  by (simp add: sql_insert_def gen_set_rows)

lemma gen_Create: "uuid_generate_v4 (snd (Create db a w)) = uuid_generate_v4 w"
  by (simp add: Create_def gen_sql_insert)

lemma gen_Save: "uuid_generate_v4 (snd (Save db a w)) = uuid_generate_v4 w"
  by (simp add: Save_def gen_Create gen_set_rows)

lemma wf_sql_insert:
  assumes "wf_rows (rows h w)" and "ID a \<noteq> uuid_Nil"
  shows "wf_rows (rows h (snd (sql_insert db a w)))"
  using assms by (auto simp: sql_insert_def rows_set_rows wf_rows_def)

lemma rows_generated_update: "rows h (w\<lparr>generated := n\<rparr>) = rows h w"
  by (cases h) (simp_all add: rows_def)

lemma wf_Create:
  assumes "wf_rows (rows h w)" and "\<forall>n. uuid_generate_v4 w n \<noteq> uuid_Nil"
  shows "wf_rows (rows h (snd (Create db a w)))"
  using assms by (simp add: Create_def wf_sql_insert rows_generated_update)

lemma wf_Save:
  assumes "wf_rows (rows h w)" and "\<forall>n. uuid_generate_v4 w n \<noteq> uuid_Nil"
  shows "wf_rows (rows h (snd (Save db a w)))"
proof -
  have "wf_rows (map (\<lambda>r. if ID r = ID a then a else r) (rows h w))"
    using assms(1) by (simp add: wf_rows_def map_ID_replace del: map_map)
  then show ?thesis
    using assms by (auto simp: Save_def wf_Create rows_set_rows)
qed

lemma wf_transferFunds:
  assumes "wf_rows (rows h w)" and "\<forall>n. uuid_generate_v4 w n \<noteq> uuid_Nil"
  shows "wf_rows (rows h (snd (transferFunds db fromID toID amount w)))"
proof -
  let ?from = "fst (First db Account_zero fromID w)"
  let ?to = "fst (First db Account_zero toID w)"
  let ?from' = "?from\<lparr>Balance := Balance ?from - amount\<rparr>"
  let ?to' = "?to\<lparr>Balance := Balance ?to + amount\<rparr>"
  have w1: "wf_rows (rows h (snd (Save db ?from' w)))"
    using assms by (rule wf_Save)
  have "\<forall>n. uuid_generate_v4 (snd (Save db ?from' w)) n \<noteq> uuid_Nil"
    using assms(2) by (simp add: gen_Save)
  with w1 have w2: "wf_rows (rows h (snd (Save db ?to' (snd (Save db ?from' w)))))"
    by (rule wf_Save)
  show ?thesis
    using assms(1) w1 w2
    by (auto simp: transferFunds_def Let_def split: prod.splits option.splits)
qed

lemma wf_insertRows_loop:
  assumes "wf_rows (rows h w)" and "\<forall>n. uuid_generate_v4 w n \<noteq> uuid_Nil"
  shows "wf_rows (rows h (snd (insertRows_loop db i numRows uuid_New rand_Intn w)))"
  using assms
proof (induction db i numRows uuid_New rand_Intn w rule: insertRows_loop.induct)
  case (1 db i numRows uuid_New rand_Intn w)
  let ?a = "\<lparr>ID = uuid_New i, Balance = rand_Intn i + transferAmt\<rparr>"
  show ?case
  proof (cases "int i < sint numRows")
    case False
    then show ?thesis
      using "1.prems"(1) by (subst insertRows_loop.simps) simp
  next
    case True
    obtain r w1 where cr: "Create db ?a w = (r, w1)"
      by (cases "Create db ?a w")
    have wf1: "wf_rows (rows h w1)"
      using wf_Create [OF "1.prems", of db ?a] cr by simp
    have gen1: "\<forall>n. uuid_generate_v4 w1 n \<noteq> uuid_Nil"
      using "1.prems"(2) gen_Create [of db ?a w] cr by simp
    show ?thesis
    proof (cases r)
      case (Some err)
      then show ?thesis
        using True wf1 cr by (subst insertRows_loop.simps) (simp add: Let_def)
    next
      case None
      have "wf_rows (rows h (snd (insertRows_loop db (Suc i) numRows uuid_New rand_Intn
                                   (w1\<lparr>acctIDs := acctIDs w1 @ [uuid_New i]\<rparr>))))"
        using "1.IH" [OF True refl refl cr [symmetric] None] wf1 gen1
        by (simp add: rows_acctIDs_update)
      then show ?thesis
        using True cr None by (subst insertRows_loop.simps) (simp add: Let_def)
    qed
  qed
qed

lemma wf_deleteAccounts:
  assumes "wf_rows (rows h w)"
  shows "wf_rows (rows h (snd (deleteAccounts db w)))"
proof -
  have "wf_rows (filter (\<lambda>r. ID r \<notin> set (acctIDs w)) (rows h w))"
    using assms by (auto simp: wf_rows_def distinct_map_filter)
  then show ?thesis
    using assms by (auto simp: deleteAccounts_def Delete_id_in_def rows_set_rows)
qed

text \<open>
  Every operation of the program keeps the table well-formed, as long as the ids that
  the store draws are not nil.
\<close>

lemma wf_perform:
  assumes "wf_rows (rows h w)" and "\<forall>n. uuid_generate_v4 w n \<noteq> uuid_Nil"
  shows "wf_rows (rows h (perform x w))"
  using assms
  by (cases x) (simp_all add: insertRows_def wf_insertRows_loop wf_transferFunds wf_deleteAccounts)

section \<open>Insufficient balance\<close>

text \<open>
  Claim C3. Whenever the balance that \<^verbatim>\<open>transferFunds\<close> reads for the source is lower than
  the amount, the call fails with the insufficient-balance error and the state (every row
  seen through either handle) is exactly what it was.
\<close>

theorem transferFunds_insufficient:
  assumes "sint (Balance (fst (First db Account_zero fromID w))) < sint amount"
  shows "transferFunds db fromID toID amount w =
           (Some (InsufficientFunds (ID (fst (First db Account_zero fromID w)))
                    (Balance (fst (First db Account_zero fromID w))) amount), w)"
  using assms by (simp add: transferFunds_def Let_def)

theorem transferFunds_insufficient_witness:
  "sint (Balance (fst (First Tx Account_zero 1
      (demo_world [\<lparr>ID = 1, Balance = 50\<rparr>, \<lparr>ID = 2, Balance = 100\<rparr>])))) < sint (100 :: go_int)
   \<and> transferFunds Tx 1 2 100 (demo_world [\<lparr>ID = 1, Balance = 50\<rparr>, \<lparr>ID = 2, Balance = 100\<rparr>])
     = (Some (InsufficientFunds 1 50 100),
        demo_world [\<lparr>ID = 1, Balance = 50\<rparr>, \<lparr>ID = 2, Balance = 100\<rparr>])"
  using transferFunds_insufficient
    [of Tx 1 "demo_world [\<lparr>ID = 1, Balance = 50\<rparr>, \<lparr>ID = 2, Balance = 100\<rparr>]" 100 2]
  by (simp add: First_def rows_def demo_world_def)

section \<open>Concrete runs\<close>

text \<open>The definitions that a concrete run of a transfer unfolds.\<close>

lemmas eval_defs = transferFunds_def First_def Save_def Create_def sql_insert_def rows_def set_rows_def
  demo_world_def Account_zero_def uuid_Nil_def Let_def

section \<open>A transfer between two accounts\<close>

text \<open>
  Claim C1 says that for two distinct accounts that exist and every amount that the
  source balance covers, the transfer succeeds, the source balance goes down by exactly
  the amount and the destination balance goes up by exactly the amount. With a
  destination that holds 9223372036854775807, the largest Go \<^verbatim>\<open>int\<close>, a transfer of 1
  succeeds and leaves the destination at - 9223372036854775808:
  \<^verbatim>\<open>toAccount.Balance += amount\<close> wraps around.
\<close>

theorem transferFunds_credit_wraps:
  "fst (transferFunds Tx 1 2 1
      (demo_world [\<lparr>ID = 1, Balance = 100\<rparr>, \<lparr>ID = 2, Balance = 9223372036854775807\<rparr>])) = None
   \<and> balance_of Tx 2
        (demo_world [\<lparr>ID = 1, Balance = 100\<rparr>, \<lparr>ID = 2, Balance = 9223372036854775807\<rparr>])
       = Some 9223372036854775807
   \<and> balance_of Tx 2 (snd (transferFunds Tx 1 2 1
        (demo_world [\<lparr>ID = 1, Balance = 100\<rparr>, \<lparr>ID = 2, Balance = 9223372036854775807\<rparr>])))
       = Some (- 9223372036854775808)
   \<and> balance_of Tx 2 (snd (transferFunds Tx 1 2 1
        (demo_world [\<lparr>ID = 1, Balance = 100\<rparr>, \<lparr>ID = 2, Balance = 9223372036854775807\<rparr>])))
       \<noteq> Some (9223372036854775807 + 1)"
  by (simp add: balance_of_def account_of_def eval_defs)

text \<open>
  Claim C1 as amended. In a well-formed table, for two distinct ids whose rows exist and
  an amount that the source balance covers, provided that neither the debit
  \<^verbatim>\<open>fromAccount.Balance - amount\<close> nor the credit \<^verbatim>\<open>toAccount.Balance + amount\<close> leaves the
  range of a Go \<^verbatim>\<open>int\<close>: \<^verbatim>\<open>transferFunds\<close> returns \<^verbatim>\<open>nil\<close>, the source balance is
  lower by exactly the amount, the destination balance is higher by exactly the amount,
  and no other balance changes. The scenario of the specification is an instance: 500
  and 100 become 400 and 200.
\<close>

theorem transferFunds_moves_amount:
  assumes "wf_rows (rows db w)"
      and "fromID \<noteq> toID"
      and "balance_of db fromID w = Some x"
      and "balance_of db toID w = Some y"
      and "sint amount \<le> x"
      and "x - sint amount < 2 ^ 63"
      and "- (2 ^ 63) \<le> y + sint amount"
      and "y + sint amount < 2 ^ 63"
  shows "fst (transferFunds db fromID toID amount w) = None
       \<and> balance_of db fromID (snd (transferFunds db fromID toID amount w)) = Some (x - sint amount)
       \<and> balance_of db toID (snd (transferFunds db fromID toID amount w)) = Some (y + sint amount)
       \<and> (\<forall>k. k \<noteq> fromID \<and> k \<noteq> toID \<longrightarrow>
             balance_of db k (snd (transferFunds db fromID toID amount w)) = balance_of db k w)"
proof -
  from assms(3) obtain a where a: "account_of db fromID w = Some a" "sint (Balance a) = x"
    by (auto simp: balance_of_def)
  from assms(4) obtain b where b: "account_of db toID w = Some b" "sint (Balance b) = y"
    by (auto simp: balance_of_def)
  have le: "sint amount \<le> sint (Balance a)"
    using assms(5) a(2) by simp
  note after = transferFunds_accounts_after [OF assms(1,2) a(1) b(1) le]
  have debit: "sint (Balance a - amount) = x - sint amount"
    using assms(5,6) a(2) sint_go_int_bounds [of amount] sint_go_int_bounds [of "Balance a"]
    by (simp add: sint_diff_in_range)
  have credit: "sint (Balance b + amount) = y + sint amount"
    using assms(7,8) b(2) by (simp add: sint_add_in_range)
  show ?thesis
    using after debit credit by (simp add: balance_of_def)
qed

theorem transferFunds_moves_amount_witness:
  "wf_rows (rows Tx (demo_world [\<lparr>ID = 1, Balance = 500\<rparr>, \<lparr>ID = 2, Balance = 100\<rparr>]))
   \<and> (1 :: uuid) \<noteq> 2
   \<and> balance_of Tx 1 (demo_world [\<lparr>ID = 1, Balance = 500\<rparr>, \<lparr>ID = 2, Balance = 100\<rparr>]) = Some 500
   \<and> balance_of Tx 2 (demo_world [\<lparr>ID = 1, Balance = 500\<rparr>, \<lparr>ID = 2, Balance = 100\<rparr>]) = Some 100
   \<and> sint (100 :: go_int) \<le> 500
   \<and> fst (transferFunds Tx 1 2 100
            (demo_world [\<lparr>ID = 1, Balance = 500\<rparr>, \<lparr>ID = 2, Balance = 100\<rparr>])) = None
   \<and> balance_of Tx 1 (snd (transferFunds Tx 1 2 100
            (demo_world [\<lparr>ID = 1, Balance = 500\<rparr>, \<lparr>ID = 2, Balance = 100\<rparr>]))) = Some 400
   \<and> balance_of Tx 2 (snd (transferFunds Tx 1 2 100
            (demo_world [\<lparr>ID = 1, Balance = 500\<rparr>, \<lparr>ID = 2, Balance = 100\<rparr>]))) = Some 200"
  using transferFunds_moves_amount
    [of Tx "demo_world [\<lparr>ID = 1, Balance = 500\<rparr>, \<lparr>ID = 2, Balance = 100\<rparr>]" 1 2 500 100 100]
  by (simp add: wf_rows_def rows_def demo_world_def account_of_def balance_of_def uuid_Nil_def)

section \<open>Amounts that are not positive\<close>

text \<open>
  Claim C10. \<^verbatim>\<open>transferFunds\<close> never compares the amount with zero. For every amount
  that is not above the source balance, positive, zero or negative, the call succeeds
  and applies the debit and the credit as Go computes them: the source row holds its
  balance minus the amount and the destination row its balance plus the amount. For a
  negative amount, as long as the results stay in the range of a Go \<^verbatim>\<open>int\<close>, the
  destination balance goes down and the source balance goes up, and the destination
  balance ends negative whenever it was smaller than the funds taken. In the instance
  below a transfer of - 100 takes 100 from a destination that holds 50 and leaves - 50.
\<close>

theorem transferFunds_no_positive_check:
  assumes "wf_rows (rows db w)"
      and "fromID \<noteq> toID"
      and "account_of db fromID w = Some a"
      and "account_of db toID w = Some b"
      and "sint amount \<le> sint (Balance a)"
  shows "fst (transferFunds db fromID toID amount w) = None
       \<and> account_of db fromID (snd (transferFunds db fromID toID amount w))
           = Some (a\<lparr>Balance := Balance a - amount\<rparr>)
       \<and> account_of db toID (snd (transferFunds db fromID toID amount w))
           = Some (b\<lparr>Balance := Balance b + amount\<rparr>)
       \<and> (sint amount < 0 \<and> - (2 ^ 63) \<le> sint (Balance b) + sint amount \<longrightarrow>
            sint (Balance b + amount) = sint (Balance b) + sint amount
            \<and> sint (Balance b + amount) < sint (Balance b))
       \<and> (sint amount < 0 \<and> sint (Balance a) - sint amount < 2 ^ 63 \<longrightarrow>
            sint (Balance a - amount) = sint (Balance a) - sint amount
            \<and> sint (Balance a) < sint (Balance a - amount))
       \<and> (sint amount < 0 \<and> - (2 ^ 63) \<le> sint (Balance b) + sint amount
            \<and> sint (Balance b) + sint amount < 0 \<longrightarrow> sint (Balance b + amount) < 0)"
proof -
  note after = transferFunds_accounts_after [OF assms]
  have credit: "sint (Balance b + amount) = sint (Balance b) + sint amount"
    if "sint amount < 0" and "- (2 ^ 63) \<le> sint (Balance b) + sint amount"
    using that sint_go_int_bounds [of "Balance b"] by (simp add: sint_add_in_range)
  have debit: "sint (Balance a - amount) = sint (Balance a) - sint amount"
    if "sint amount < 0" and "sint (Balance a) - sint amount < 2 ^ 63"
    using that sint_go_int_bounds [of "Balance a"] by (simp add: sint_diff_in_range)
  show ?thesis
    using after credit debit by simp
qed

theorem transferFunds_no_positive_check_witness:
  "wf_rows (rows Tx (demo_world [\<lparr>ID = 1, Balance = 500\<rparr>, \<lparr>ID = 2, Balance = 50\<rparr>]))
   \<and> (1 :: uuid) \<noteq> 2
   \<and> sint (- 100 :: go_int) < 0
   \<and> sint (- 100 :: go_int) \<le> sint (500 :: go_int)
   \<and> fst (transferFunds Tx 1 2 (- 100)
            (demo_world [\<lparr>ID = 1, Balance = 500\<rparr>, \<lparr>ID = 2, Balance = 50\<rparr>])) = None
   \<and> account_of Tx 1 (snd (transferFunds Tx 1 2 (- 100)
            (demo_world [\<lparr>ID = 1, Balance = 500\<rparr>, \<lparr>ID = 2, Balance = 50\<rparr>])))
       = Some \<lparr>ID = 1, Balance = 600\<rparr>
   \<and> account_of Tx 2 (snd (transferFunds Tx 1 2 (- 100)
            (demo_world [\<lparr>ID = 1, Balance = 500\<rparr>, \<lparr>ID = 2, Balance = 50\<rparr>])))
       = Some \<lparr>ID = 2, Balance = - 50\<rparr>
   \<and> sint (50 + (- 100) :: go_int) = - 50
   \<and> sint (50 + (- 100) :: go_int) < 0"
  using transferFunds_no_positive_check
    [of Tx "demo_world [\<lparr>ID = 1, Balance = 500\<rparr>, \<lparr>ID = 2, Balance = 50\<rparr>]" 1 2
        "\<lparr>ID = 1, Balance = 500\<rparr>" "\<lparr>ID = 2, Balance = 50\<rparr>" "- 100"]
  by (simp add: wf_rows_def rows_def demo_world_def account_of_def uuid_Nil_def)

section \<open>A transfer from an account to itself\<close>

text \<open>
  Between two distinct accounts that exist the debit and the credit cancel: in Go's
  arithmetic the two balances add up to the same value before and after.
\<close>

lemma transferFunds_pair_sum:
  assumes "wf_rows (rows db w)"
      and "fromID \<noteq> toID"
      and "account_of db fromID w = Some a"
      and "account_of db toID w = Some b"
      and "sint amount \<le> sint (Balance a)"
  shows "\<exists>a' b'. account_of db fromID (snd (transferFunds db fromID toID amount w)) = Some a'
             \<and> account_of db toID (snd (transferFunds db fromID toID amount w)) = Some b'
             \<and> Balance a' + Balance b' = Balance a + Balance b"
  using transferFunds_accounts_after [OF assms] by simp

text \<open>
  Claim C2 (conservation of the sum of the balances across a successful transfer), at a
  transfer the program can make. \<^verbatim>\<open>main\<close> draws the destination among all recorded ids,
  the source included: with the draw 0 both ids are \<^verbatim>\<open>acctIDs[0]\<close>. Both reads then
  return the same row, the debited copy is saved first and the credited copy
  (\<open>500 + 100\<close>) is saved over it. The call succeeds and the sum of the balances rises
  from 600 to 700.
\<close>

theorem transferFunds_self_transfer_creates_funds:
  "main_choose_ids 0 (demo_world [\<lparr>ID = 1, Balance = 500\<rparr>, \<lparr>ID = 2, Balance = 100\<rparr>]) = Some (1, 1)
   \<and> main_transfer_unit 1 1 Tx (demo_world [\<lparr>ID = 1, Balance = 500\<rparr>, \<lparr>ID = 2, Balance = 100\<rparr>])
       = (None, (demo_world [\<lparr>ID = 1, Balance = 500\<rparr>, \<lparr>ID = 2, Balance = 100\<rparr>])
                  \<lparr>pending := [\<lparr>ID = 1, Balance = 600\<rparr>, \<lparr>ID = 2, Balance = 100\<rparr>]\<rparr>)
   \<and> total_balance Tx (demo_world [\<lparr>ID = 1, Balance = 500\<rparr>, \<lparr>ID = 2, Balance = 100\<rparr>]) = 600
   \<and> total_balance Tx (snd (main_transfer_unit 1 1 Tx
          (demo_world [\<lparr>ID = 1, Balance = 500\<rparr>, \<lparr>ID = 2, Balance = 100\<rparr>]))) = 700"
  by (simp add: main_choose_ids_def main_transfer_unit_def transferAmt_def total_balance_def eval_defs)

text \<open>
  Claim C4 says that a transfer from an account to itself succeeds for every amount and
  changes nothing. With a balance of 50 and an amount of 100 the call does not succeed:
  the balance check rejects it.
\<close>

theorem transferFunds_self_insufficient:
  "fst (transferFunds Tx 1 1 100 (demo_world [\<lparr>ID = 1, Balance = 50\<rparr>]))
     = Some (InsufficientFunds 1 50 100)
   \<and> fst (transferFunds Tx 1 1 100 (demo_world [\<lparr>ID = 1, Balance = 50\<rparr>])) \<noteq> None"
  by (simp add: eval_defs)

text \<open>
  Claim C4 as amended. For an account that exists in a well-formed table, a transfer to
  itself fails with the insufficient-balance error and changes nothing when the balance
  is lower than the amount; it succeeds and changes nothing when the amount is 0 and
  the balance is not negative; and for every amount it leaves every other account as it
  was.
\<close>

theorem transferFunds_self_transfer:
  assumes "wf_rows (rows db w)"
      and "account_of db a w = Some acct"
  shows "(sint (Balance acct) < sint amount \<longrightarrow>
            transferFunds db a a amount w = (Some (InsufficientFunds a (Balance acct) amount), w))
       \<and> (amount = 0 \<and> 0 \<le> sint (Balance acct) \<longrightarrow>
            transferFunds db a a amount w = (None, w))
       \<and> (\<forall>k. k \<noteq> a \<longrightarrow>
             account_of db k (snd (transferFunds db a a amount w)) = account_of db k w)"
proof -
  have fa: "find (\<lambda>r. ID r = a) (rows db w) = Some acct"
    using assms(2) by (simp add: account_of_def)
  have ida: "ID acct = a"
    using find_ID_Some [OF fa] by simp
  have nn: "uuid_Nil \<notin> set (map ID (rows db w))" and dist: "distinct (map ID (rows db w))"
    using assms(1) by (simp_all add: wf_rows_def)
  have low: "transferFunds db a a amount w = (Some (InsufficientFunds a (Balance acct) amount), w)"
    if "sint (Balance acct) < sint amount"
    using that ida by (simp add: transferFunds_def Let_def First_found [OF fa])
  have zero: "transferFunds db a a amount w = (None, w)"
    if "amount = 0" and "0 \<le> sint (Balance acct)"
  proof -
    have ok: "\<not> sint (Balance acct) < sint (0 :: go_int)"
      using that(2) by simp
    have "transferFunds db a a 0 w = (None, w)"
      by (simp add: transferFunds_existing [OF nn fa fa ok] replace_same [OF dist fa] set_rows_same
          del: map_map cong: if_cong)
    with that(1) show ?thesis by simp
  qed
  have others: "account_of db k (snd (transferFunds db a a amount w)) = account_of db k w"
    if "k \<noteq> a" for k
  proof (cases "sint (Balance acct) < sint amount")
    case True
    then show ?thesis by (simp add: low)
  next
    case False
    show ?thesis
      using that ida
      by (simp add: transferFunds_existing [OF nn fa fa False] account_of_def rows_set_rows
          find_replace del: map_map)
  qed
  show ?thesis
    using low zero others by blast
qed

theorem transferFunds_self_transfer_witness:
  "wf_rows (rows Tx (demo_world [\<lparr>ID = 1, Balance = 50\<rparr>, \<lparr>ID = 2, Balance = 7\<rparr>]))
   \<and> account_of Tx 1 (demo_world [\<lparr>ID = 1, Balance = 50\<rparr>, \<lparr>ID = 2, Balance = 7\<rparr>])
       = Some \<lparr>ID = 1, Balance = 50\<rparr>
   \<and> sint (50 :: go_int) < sint (100 :: go_int)
   \<and> transferFunds Tx 1 1 100 (demo_world [\<lparr>ID = 1, Balance = 50\<rparr>, \<lparr>ID = 2, Balance = 7\<rparr>])
       = (Some (InsufficientFunds 1 50 100),
          demo_world [\<lparr>ID = 1, Balance = 50\<rparr>, \<lparr>ID = 2, Balance = 7\<rparr>])
   \<and> transferFunds Tx 1 1 0 (demo_world [\<lparr>ID = 1, Balance = 50\<rparr>, \<lparr>ID = 2, Balance = 7\<rparr>])
       = (None, demo_world [\<lparr>ID = 1, Balance = 50\<rparr>, \<lparr>ID = 2, Balance = 7\<rparr>])
   \<and> account_of Tx 2 (snd (transferFunds Tx 1 1 20
          (demo_world [\<lparr>ID = 1, Balance = 50\<rparr>, \<lparr>ID = 2, Balance = 7\<rparr>])))
       = Some \<lparr>ID = 2, Balance = 7\<rparr>"
  using transferFunds_self_transfer
      [of Tx "demo_world [\<lparr>ID = 1, Balance = 50\<rparr>, \<lparr>ID = 2, Balance = 7\<rparr>]" 1
          "\<lparr>ID = 1, Balance = 50\<rparr>" 100]
    transferFunds_self_transfer
      [of Tx "demo_world [\<lparr>ID = 1, Balance = 50\<rparr>, \<lparr>ID = 2, Balance = 7\<rparr>]" 1
          "\<lparr>ID = 1, Balance = 50\<rparr>" 0]
    transferFunds_self_transfer
      [of Tx "demo_world [\<lparr>ID = 1, Balance = 50\<rparr>, \<lparr>ID = 2, Balance = 7\<rparr>]" 1
          "\<lparr>ID = 1, Balance = 50\<rparr>" 20]
  by (simp add: wf_rows_def rows_def demo_world_def account_of_def uuid_Nil_def)

section \<open>Accounts that do not exist\<close>

text \<open>
  Claim C6 (a transfer that names a missing account fails with a not-found error and
  changes nothing), at two transfers of 100 on a table that holds only account 1 with
  500. To the missing account 2: the read leaves the zero struct, the call succeeds,
  account 1 is debited and the credited zero struct, having no id, is inserted as a new
  row under an id drawn by the store. From the missing account 2: the zero struct has
  balance 0, so the call fails with the insufficient-balance error for the nil id.
\<close>

theorem transferFunds_missing_account:
  "transferFunds Tx 1 2 100 (demo_world [\<lparr>ID = 1, Balance = 500\<rparr>])
     = (None, (demo_world [\<lparr>ID = 1, Balance = 500\<rparr>])
                \<lparr>pending := [\<lparr>ID = 1, Balance = 400\<rparr>, \<lparr>ID = 4096, Balance = 100\<rparr>],
                 generated := 1\<rparr>)
   \<and> transferFunds Tx 2 1 100 (demo_world [\<lparr>ID = 1, Balance = 500\<rparr>])
     = (Some (InsufficientFunds uuid_Nil 0 100), demo_world [\<lparr>ID = 1, Balance = 500\<rparr>])"
  by (simp add: eval_defs)

section \<open>The handle used by the units of work\<close>

text \<open>
  Claim C7 (every statement of a unit of work goes through the transaction handle it is
  given), at the seeding unit of \<^verbatim>\<open>main\<close>, run with the connection handle \<open>Conn\<close> for
  \<^verbatim>\<open>db\<close> and the transaction handle \<open>Tx\<close> on an empty table: the five rows are
  inserted through \<open>Conn\<close>, and the rows of the transaction stay empty. The transfer
  unit, in contrast, reads and writes through \<open>Tx\<close> only.
\<close>

theorem main_seed_unit_bypasses_tx:
  "main_seed_unit Conn (\<lambda>i. 1 + of_nat i) (\<lambda>i. 0) Tx (demo_world [])
     = (None, (demo_world [])
                \<lparr>committed := [\<lparr>ID = 1, Balance = 100\<rparr>, \<lparr>ID = 2, Balance = 100\<rparr>,
                               \<lparr>ID = 3, Balance = 100\<rparr>, \<lparr>ID = 4, Balance = 100\<rparr>,
                               \<lparr>ID = 5, Balance = 100\<rparr>],
                 acctIDs := [1, 2, 3, 4, 5]\<rparr>)
   \<and> pending (snd (main_seed_unit Conn (\<lambda>i. 1 + of_nat i) (\<lambda>i. 0) Tx (demo_world []))) = []
   \<and> main_transfer_unit 1 2 Tx (demo_world [\<lparr>ID = 1, Balance = 500\<rparr>, \<lparr>ID = 2, Balance = 100\<rparr>])
     = (None, (demo_world [\<lparr>ID = 1, Balance = 500\<rparr>, \<lparr>ID = 2, Balance = 100\<rparr>])
                \<lparr>pending := [\<lparr>ID = 1, Balance = 400\<rparr>, \<lparr>ID = 2, Balance = 200\<rparr>]\<rparr>)"
  by (simp add: main_seed_unit_def main_transfer_unit_def insertRows_def insertRows_loop.simps
      transferAmt_def eval_defs)

section \<open>The retry budget\<close>

lemma again_simps: "fst (again res) = fst res" "snd (again res) = Suc (snd res)"
  by (simp_all add: again_def)

lemma ExecuteTx_attempts: "snd (ExecuteTx budget st f s) \<le> budget"
  by (induction budget arbitrary: s)
     (auto simp: again_simps split: prod.splits option.splits)

lemma ExecuteTx_always_conflict:
  assumes "\<And>tx s'. fst (f tx s') = Some RetryableConflict"
  shows "fst (fst (ExecuteTx budget st f s)) = Some RetryExhausted
       \<and> snd (ExecuteTx budget st f s) = budget"
proof (induction budget arbitrary: s)
  case 0
  show ?case by simp
next
  case (Suc budget)
  obtain s1 where "f Tx (tx_begin st s) = (Some RetryableConflict, s1)"
    using assms [of Tx "tx_begin st s"] by (cases "f Tx (tx_begin st s)") simp
  then show ?case
    using Suc.IH [of "tx_rollback st s1"] by (simp add: again_simps)
qed

text \<open>
  Claim C8, for the executor as the specification describes it. Whatever the unit of
  work does, it is invoked at most as many times as the budget allows, so every call of
  the executor returns; and a unit of work that fails with a retryable conflict every
  time is invoked exactly that many times, after which the executor returns
  \<open>RetryExhausted\<close>.
\<close>

theorem ExecuteTx_terminates_within_budget:
  "snd (ExecuteTx budget st f s) \<le> budget
   \<and> ((\<forall>tx s'. fst (f tx s') = Some RetryableConflict) \<longrightarrow>
        fst (fst (ExecuteTx budget st f s)) = Some RetryExhausted
        \<and> snd (ExecuteTx budget st f s) = budget)"
  using ExecuteTx_attempts [of budget st f s] ExecuteTx_always_conflict [of f budget st s]
  by blast

theorem ExecuteTx_terminates_within_budget_witness:
  "(\<forall>tx s'. fst ((\<lambda>tx s. (Some RetryableConflict, Suc s)) tx (s' :: nat)) = Some RetryableConflict)
   \<and> ExecuteTx 3 \<lparr>tx_begin = (\<lambda>s. s), tx_commit = (\<lambda>s. (None, s)), tx_rollback = (\<lambda>s. s)\<rparr>
        (\<lambda>tx s. (Some RetryableConflict, Suc s)) (0 :: nat)
      = ((Some RetryExhausted, 3), 3)"
  using ExecuteTx_terminates_within_budget
    [of 3 "\<lparr>tx_begin = (\<lambda>s. s), tx_commit = (\<lambda>s. (None, s)), tx_rollback = (\<lambda>s. s)\<rparr>"
        "\<lambda>tx s. (Some RetryableConflict, Suc s)" "0 :: nat"]
  by (simp add: numeral_3_eq_3 again_def)

section \<open>Seeding\<close>

text \<open>
  Claim C9. \<^verbatim>\<open>rand.Intn(10000)\<close> returns a value from 0 to 9999 and \<^verbatim>\<open>uuid.New()\<close> never
  the nil UUID. Then \<^verbatim>\<open>insertRows\<close> keeps the rows that were there and appends the rows
  it creates; each created row has a balance of at least \<^verbatim>\<open>transferAmt\<close>, which is 100,
  and at most \<^verbatim>\<open>transferAmt + 9999\<close>; \<^verbatim>\<open>acctIDs\<close> grows by exactly the ids of the
  created rows, in order, one entry per row; and a call that returns \<^verbatim>\<open>nil\<close> has
  created \<^verbatim>\<open>numRows\<close> rows.
\<close>

theorem insertRows_seeds:
  assumes rand: "list_all (\<lambda>i. 0 \<le> sint (rand_Intn i) \<and> sint (rand_Intn i) < 10000)
                   [0..<nat (sint numRows)]"
      and ids: "list_all (\<lambda>i. uuid_New i \<noteq> uuid_Nil) [0..<nat (sint numRows)]"
  shows "sint transferAmt = 100
       \<and> take (length (rows db w)) (rows db (snd (insertRows db numRows uuid_New rand_Intn w)))
           = rows db w
       \<and> list_all (\<lambda>r. sint transferAmt \<le> sint (Balance r)
                      \<and> sint (Balance r) \<le> sint transferAmt + 9999)
           (drop (length (rows db w)) (rows db (snd (insertRows db numRows uuid_New rand_Intn w))))
       \<and> acctIDs (snd (insertRows db numRows uuid_New rand_Intn w))
           = acctIDs w @ map ID
               (drop (length (rows db w)) (rows db (snd (insertRows db numRows uuid_New rand_Intn w))))
       \<and> (fst (insertRows db numRows uuid_New rand_Intn w) = None \<longrightarrow>
            length (drop (length (rows db w))
                      (rows db (snd (insertRows db numRows uuid_New rand_Intn w))))
              = nat (sint numRows))"
proof -
  let ?mk = "\<lambda>j. \<lparr>ID = uuid_New j, Balance = rand_Intn j + transferAmt\<rparr>"
  let ?res = "insertRows_loop db 0 numRows uuid_New rand_Intn w"
  have "\<forall>j. 0 \<le> j \<and> int j < sint numRows \<longrightarrow> uuid_New j \<noteq> uuid_Nil"
    using ids by (auto simp: list_all_iff)
  from insertRows_loop_effect [OF this, of db rand_Intn w]
  obtain k where k: "0 \<le> k \<and> k \<le> max 0 (nat (sint numRows))
      \<and> rows db (snd ?res) = rows db w @ map ?mk [0..<k]
      \<and> acctIDs (snd ?res) = acctIDs w @ map uuid_New [0..<k]
      \<and> (fst ?res = None \<longrightarrow> k = max 0 (nat (sint numRows)))" ..
  then have kn: "k \<le> nat (sint numRows)"
    and rws: "rows db (snd ?res) = rows db w @ map ?mk [0..<k]"
    and acc: "acctIDs (snd ?res) = acctIDs w @ map uuid_New [0..<k]"
    and full: "fst ?res = None \<longrightarrow> k = nat (sint numRows)"
    by simp_all
  have amt: "sint (transferAmt :: go_int) = 100"
    by (simp add: transferAmt_def)
  have bal: "100 \<le> sint (rand_Intn j + transferAmt) \<and> sint (rand_Intn j + transferAmt) \<le> 10099"
    if "j < k" for j
  proof -
    from that kn have "j \<in> set [0..<nat (sint numRows)]" by simp
    with rand have "0 \<le> sint (rand_Intn j)" "sint (rand_Intn j) < 10000"
      by (auto simp: list_all_iff)
    then show ?thesis
      by (simp add: seeded_balance_range)
  qed
  have created: "drop (length (rows db w)) (rows db (snd ?res)) = map ?mk [0..<k]"
    by (simp add: rws)
  have ids_created: "map ID (map ?mk [0..<k]) = map uuid_New [0..<k]"
    by simp
  show ?thesis
    unfolding insertRows_def created
    using bal full
    by (simp add: amt rws acc ids_created list_all_iff del: map_map)
qed

theorem insertRows_seeds_witness:
  "list_all (\<lambda>i. 0 \<le> sint ((\<lambda>i. 9999 :: go_int) i) \<and> sint ((\<lambda>i. 9999 :: go_int) i) < 10000)
     [0..<nat (sint (2 :: go_int))]
   \<and> list_all (\<lambda>i. (\<lambda>i. 1 + of_nat i) i \<noteq> uuid_Nil) [0..<nat (sint (2 :: go_int))]
   \<and> insertRows Conn 2 (\<lambda>i. 1 + of_nat i) (\<lambda>i. 9999) (demo_world [])
       = (None, (demo_world []) \<lparr>committed := [\<lparr>ID = 1, Balance = 10099\<rparr>, \<lparr>ID = 2, Balance = 10099\<rparr>],
                                acctIDs := [1, 2]\<rparr>)
   \<and> acctIDs (snd (insertRows Conn 2 (\<lambda>i. 1 + of_nat i) (\<lambda>i. 9999) (demo_world [])))
       = acctIDs (demo_world []) @ map ID (drop (length (rows Conn (demo_world [])))
           (rows Conn (snd (insertRows Conn 2 (\<lambda>i. 1 + of_nat i) (\<lambda>i. 9999) (demo_world [])))))"
  using insertRows_seeds [of "\<lambda>i. 9999" 2 "\<lambda>i. 1 + of_nat i" Conn "demo_world []"]
  by (simp add: insertRows_def insertRows_loop.simps transferAmt_def Create_def sql_insert_def
      rows_def set_rows_def demo_world_def uuid_Nil_def numeral_2_eq_2)

section \<open>Balances that are not negative\<close>

text \<open>
  A transfer from an account to itself with the whole balance as amount doubles the
  balance: the check passes, and the credited copy is saved last.
\<close>

lemma amounts_positive: "list_all (\<lambda>k. 0 < sint (100 * 2 ^ k :: go_int)) [0..<57]"
  by (simp add: upt_rec)

lemma self_transfer_doubles:
  assumes "a \<noteq> uuid_Nil" and "rows db w = [\<lparr>ID = a, Balance = b\<rparr>]"
  shows "perform (Transfer db a a b) w = set_rows db [\<lparr>ID = a, Balance = b + b\<rparr>] w"
  using assms
  by (simp add: transferFunds_def First_def Save_def Let_def rows_set_rows set_rows_twice)

lemma doubling_run:
  assumes "a \<noteq> uuid_Nil"
  shows "rows db w = [\<lparr>ID = a, Balance = b * 2 ^ i\<rparr>] \<Longrightarrow>
         perform_all (map (\<lambda>k. Transfer db a a (b * 2 ^ k)) [i..<i + n]) w
           = (if n = 0 then w else set_rows db [\<lparr>ID = a, Balance = b * 2 ^ (i + n)\<rparr>] w)"
proof (induction n arbitrary: i w)
  case 0
  then show ?case by simp
next
  case (Suc n)
  let ?run = "\<lambda>ks. perform_all (map (\<lambda>k. Transfer db a a (b * 2 ^ k)) ks)"
  let ?w1 = "set_rows db [\<lparr>ID = a, Balance = b * 2 ^ Suc i\<rparr>] w"
  have upt: "[i..<i + Suc n] = i # [Suc i..<Suc i + n]"
    by (simp add: upt_conv_Cons)
  have dbl: "b * 2 ^ i + b * 2 ^ i = b * 2 ^ Suc i"
    by simp
  have st: "perform (Transfer db a a (b * 2 ^ i)) w = ?w1"
    using self_transfer_doubles [OF assms Suc.prems] by (simp only: dbl)
  have r1: "rows db ?w1 = [\<lparr>ID = a, Balance = b * 2 ^ Suc i\<rparr>]"
    by (simp add: rows_set_rows)
  have "?run [i..<i + Suc n] w = ?run [Suc i..<Suc i + n] ?w1"
    by (simp only: upt list.map perform_all.simps st)
  also have "\<dots> = (if n = 0 then ?w1
                      else set_rows db [\<lparr>ID = a, Balance = b * 2 ^ (Suc i + n)\<rparr>] ?w1)"
    by (rule Suc.IH [OF r1])
  also have "\<dots> = set_rows db [\<lparr>ID = a, Balance = b * 2 ^ (i + Suc n)\<rparr>] w"
    by (simp add: set_rows_twice)
  finally show ?case by simp
qed

lemma allowed_all_transfers:
  "allowed_all (map (\<lambda>k. Transfer db a a (f k)) ks) w = list_all (\<lambda>k. 0 < sint (f k)) ks"
  by (induction ks arbitrary: w) simp_all

text \<open>
  Claim C5 says that no state reachable by seeding, transfers of positive amounts and
  deletion holds a negative balance. The run below seeds one account with
  \<open>0 + 100\<close> and then transfers the whole balance from the account to itself 57 times;
  every amount is positive and covered by the balance. The balance doubles each time,
  and \<open>100 * 2 ^ 57\<close> is beyond the largest Go \<^verbatim>\<open>int\<close>: the row ends with the balance
  - 4035225266123964416.
\<close>

theorem negative_balance_reachable:
  "allowed_all (Seed Conn 1 (\<lambda>i. 1) (\<lambda>i. 0)
                 # map (\<lambda>k. Transfer Conn 1 1 (100 * 2 ^ k)) [0..<57]) (demo_world [])
   \<and> committed (perform_all (Seed Conn 1 (\<lambda>i. 1) (\<lambda>i. 0)
                 # map (\<lambda>k. Transfer Conn 1 1 (100 * 2 ^ k)) [0..<57]) (demo_world []))
       = [\<lparr>ID = 1, Balance = 100 * 2 ^ 57\<rparr>]
   \<and> sint (100 * 2 ^ 57 :: go_int) = - 4035225266123964416
   \<and> \<not> nonneg (perform_all (Seed Conn 1 (\<lambda>i. 1) (\<lambda>i. 0)
                 # map (\<lambda>k. Transfer Conn 1 1 (100 * 2 ^ k)) [0..<57]) (demo_world []))"
proof -
  let ?w1 = "(demo_world []) \<lparr>committed := [\<lparr>ID = 1, Balance = 100\<rparr>], acctIDs := [1]\<rparr>"
  have seed: "perform (Seed Conn 1 (\<lambda>i. 1) (\<lambda>i. 0)) (demo_world []) = ?w1"
    by (simp add: insertRows_def insertRows_loop.simps transferAmt_def Create_def sql_insert_def
        rows_def set_rows_def demo_world_def uuid_Nil_def)
  have r1: "rows Conn ?w1 = [\<lparr>ID = 1, Balance = 100 * 2 ^ 0\<rparr>]"
    by (simp add: rows_def)
  have nn: "(1 :: uuid) \<noteq> uuid_Nil"
    by (simp add: uuid_Nil_def)
  have run: "perform_all (map (\<lambda>k. Transfer Conn 1 1 (100 * 2 ^ k)) [0..<0 + 57]) ?w1
               = set_rows Conn [\<lparr>ID = 1, Balance = 100 * 2 ^ (0 + 57)\<rparr>] ?w1"
    using doubling_run [OF nn r1, of 57] by simp
  have al: "allowed_all (Seed Conn 1 (\<lambda>i. 1) (\<lambda>i. 0)
                 # map (\<lambda>k. Transfer Conn 1 1 (100 * 2 ^ k)) [0..<57]) (demo_world [])"
    using amounts_positive by (simp add: allowed_all_transfers list_all_iff)
  have neg: "sint (100 * 2 ^ 57 :: go_int) = - 4035225266123964416"
    by simp
  have fin: "perform_all (Seed Conn 1 (\<lambda>i. 1) (\<lambda>i. 0)
                 # map (\<lambda>k. Transfer Conn 1 1 (100 * 2 ^ k)) [0..<57]) (demo_world [])
              = set_rows Conn [\<lparr>ID = 1, Balance = 100 * 2 ^ 57\<rparr>] ?w1"
    using run by (simp only: perform_all.simps seed add_0)
  have com: "committed (perform_all (Seed Conn 1 (\<lambda>i. 1) (\<lambda>i. 0)
                 # map (\<lambda>k. Transfer Conn 1 1 (100 * 2 ^ k)) [0..<57]) (demo_world []))
              = [\<lparr>ID = 1, Balance = 100 * 2 ^ 57\<rparr>]"
    by (simp only: fin) (simp add: set_rows_def)
  have "\<not> nonneg (perform_all (Seed Conn 1 (\<lambda>i. 1) (\<lambda>i. 0)
                 # map (\<lambda>k. Transfer Conn 1 1 (100 * 2 ^ k)) [0..<57]) (demo_world []))"
    by (simp only: fin) (simp add: set_rows_def nonneg_def nonneg_rows_def)
  with al com neg show ?thesis
    by (intro conjI)
qed

text \<open>Each statement and each operation keeps the balances non-negative.\<close>

lemma nonneg_rows_of: "nonneg w \<Longrightarrow> nonneg_rows (rows db w)"
  by (cases db) (simp_all add: nonneg_def rows_def)

lemma nonneg_set_rows: "nonneg w \<Longrightarrow> nonneg_rows rs \<Longrightarrow> nonneg (set_rows db rs w)"
  by (cases db) (simp_all add: nonneg_def set_rows_def)

lemma nonneg_other_fields:
  "nonneg (w\<lparr>acctIDs := ids\<rparr>) = nonneg w"
  "nonneg (w\<lparr>generated := n\<rparr>) = nonneg w"
  by (simp_all add: nonneg_def)

lemma nonneg_sql_insert:
  assumes "nonneg w" and "0 \<le> sint (Balance a)"
  shows "nonneg (snd (sql_insert db a w))"
  using assms nonneg_rows_of [OF assms(1), of db]
  by (simp add: sql_insert_def nonneg_set_rows nonneg_rows_def)

lemma nonneg_Create:
  assumes "nonneg w" and "0 \<le> sint (Balance a)"
  shows "nonneg (snd (Create db a w))"
  using assms by (simp add: Create_def nonneg_sql_insert nonneg_other_fields)

lemma nonneg_Save:
  assumes "nonneg w" and "0 \<le> sint (Balance a)"
  shows "nonneg (snd (Save db a w))"
proof -
  have "nonneg_rows (map (\<lambda>r. if ID r = ID a then a else r) (rows db w))"
    using assms(2) nonneg_rows_of [OF assms(1), of db]
    by (auto simp: nonneg_rows_def list_all_iff)
  then show ?thesis
    using assms by (simp add: Save_def nonneg_Create nonneg_set_rows)
qed

lemma First_nonneg:
  assumes "nonneg w"
  shows "0 \<le> sint (Balance (fst (First db Account_zero key w)))"
proof (cases "find (\<lambda>r. ID r = key) (rows db w)")
  case None
  then show ?thesis by (simp add: First_def Account_zero_def)
next
  case (Some a)
  then have "a \<in> set (rows db w)"
    using find_ID_Some by blast
  then show ?thesis
    using Some nonneg_rows_of [OF assms, of db]
    by (simp add: First_def nonneg_rows_def list_all_iff)
qed

lemma nonneg_transferFunds:
  assumes nn: "nonneg w"
      and pos: "0 < sint amount"
      and fits: "sint (Balance (fst (First db Account_zero toID w))) + sint amount < 2 ^ 63"
  shows "nonneg (snd (transferFunds db fromID toID amount w))"
proof -
  let ?from = "fst (First db Account_zero fromID w)"
  let ?to = "fst (First db Account_zero toID w)"
  show ?thesis
  proof (cases "sint (Balance ?from) < sint amount")
    case True
    then show ?thesis
      using nn by (simp add: transferFunds_def Let_def)
  next
    case False
    let ?from' = "?from\<lparr>Balance := Balance ?from - amount\<rparr>"
    let ?to' = "?to\<lparr>Balance := Balance ?to + amount\<rparr>"
    have "sint (Balance ?from - amount) = sint (Balance ?from) - sint amount"
      using False pos sint_go_int_bounds [of "Balance ?from"]
      by (intro sint_diff_in_range) linarith+
    then have debit: "0 \<le> sint (Balance ?from')"
      using False by simp
    have "sint (Balance ?to + amount) = sint (Balance ?to) + sint amount"
      using fits pos First_nonneg [OF nn, of db toID]
      by (intro sint_add_in_range) linarith+
    then have credit: "0 \<le> sint (Balance ?to')"
      using pos First_nonneg [OF nn, of db toID] by simp
    have n1: "nonneg (snd (Save db ?from' w))"
      using nn debit by (rule nonneg_Save)
    have n2: "nonneg (snd (Save db ?to' (snd (Save db ?from' w))))"
      using n1 credit by (rule nonneg_Save)
    show ?thesis
      using False n1 n2
      by (auto simp: transferFunds_def Let_def split: prod.splits option.splits)
  qed
qed

lemma nonneg_insertRows_loop:
  assumes "nonneg w"
      and "\<forall>j. i \<le> j \<and> int j < sint numRows \<longrightarrow>
             0 \<le> sint (rand_Intn j) \<and> sint (rand_Intn j) < 10000"
  shows "nonneg (snd (insertRows_loop db i numRows uuid_New rand_Intn w))"
  using assms
proof (induction db i numRows uuid_New rand_Intn w rule: insertRows_loop.induct)
  case (1 db i numRows uuid_New rand_Intn w)
  let ?a = "\<lparr>ID = uuid_New i, Balance = rand_Intn i + transferAmt\<rparr>"
  show ?case
  proof (cases "int i < sint numRows")
    case False
    then show ?thesis
      using "1.prems"(1) by (subst insertRows_loop.simps) simp
  next
    case True
    then have "0 \<le> sint (rand_Intn i)" "sint (rand_Intn i) < 10000"
      using "1.prems"(2) by simp_all
    then have "0 \<le> sint (Balance ?a)"
      by (simp add: seeded_balance_range)
    with "1.prems"(1) have nc: "nonneg (snd (Create db ?a w))"
      by (rule nonneg_Create)
    obtain r w1 where cr: "Create db ?a w = (r, w1)"
      by (cases "Create db ?a w")
    show ?thesis
    proof (cases r)
      case (Some err)
      then show ?thesis
        using True nc cr by (subst insertRows_loop.simps) (simp add: Let_def)
    next
      case None
      have later: "\<forall>j. Suc i \<le> j \<and> int j < sint numRows \<longrightarrow>
             0 \<le> sint (rand_Intn j) \<and> sint (rand_Intn j) < 10000"
        using "1.prems"(2) by simp
      have n1: "nonneg (w1\<lparr>acctIDs := acctIDs w1 @ [uuid_New i]\<rparr>)"
        using nc cr by (simp add: nonneg_other_fields)
      have "nonneg (snd (insertRows_loop db (Suc i) numRows uuid_New rand_Intn
                           (w1\<lparr>acctIDs := acctIDs w1 @ [uuid_New i]\<rparr>)))"
        using "1.IH" [OF True refl refl cr [symmetric] None n1 later] .
      then show ?thesis
        using True cr None by (subst insertRows_loop.simps) (simp add: Let_def)
    qed
  qed
qed

lemma nonneg_deleteAccounts:
  assumes "nonneg w"
  shows "nonneg (snd (deleteAccounts db w))"
proof -
  have "nonneg_rows (filter (\<lambda>r. ID r \<notin> set (acctIDs w)) (rows db w))"
    using nonneg_rows_of [OF assms, of db] by (simp add: nonneg_rows_def list_all_iff)
  then show ?thesis
    using assms by (simp add: deleteAccounts_def Delete_id_in_def nonneg_set_rows)
qed

lemma nonneg_perform:
  assumes "nonneg w" and "allowed x w" and "credit_fits x w"
  shows "nonneg (perform x w)"
proof (cases x)
  case (Seed db numRows uuid_New rand_Intn)
  have "\<forall>j. 0 \<le> j \<and> int j < sint numRows \<longrightarrow>
          0 \<le> sint (rand_Intn j) \<and> sint (rand_Intn j) < 10000"
    using assms(2) Seed by (auto simp: list_all_iff)
  then show ?thesis
    using Seed assms(1) by (simp add: insertRows_def nonneg_insertRows_loop)
next
  case (Transfer db fromID toID amount)
  then show ?thesis
    using assms by (simp add: nonneg_transferFunds)
next
  case (Teardown db)
  then show ?thesis
    using assms(1) by (simp add: nonneg_deleteAccounts)
qed

text \<open>
  Claim C5 as amended. Starting from a state without a negative balance, every run of
  seedings (with \<^verbatim>\<open>rand.Intn\<close> in its range), transfers of positive amounts and
  deletions, on either handle, ends in a state without a negative balance, provided that
  in every transfer the credit \<^verbatim>\<open>toAccount.Balance + amount\<close> stays below \<open>2 ^ 63\<close>.
\<close>

theorem nonneg_preserved:
  assumes "nonneg w" and "allowed_all ops w" and "credit_fits_all ops w"
  shows "nonneg (perform_all ops w)"
  using assms
proof (induction ops arbitrary: w)
  case Nil
  then show ?case by simp
next
  case (Cons x xs)
  from Cons.prems have "nonneg (perform x w)"
    by (simp add: nonneg_perform)
  with Cons.prems show ?case
    by (simp add: Cons.IH)
qed

theorem nonneg_preserved_witness:
  "nonneg (demo_world [])
   \<and> allowed_all [Seed Conn 2 (\<lambda>i. 1 + of_nat i) (\<lambda>i. 0), Transfer Conn 1 2 100] (demo_world [])
   \<and> credit_fits_all [Seed Conn 2 (\<lambda>i. 1 + of_nat i) (\<lambda>i. 0), Transfer Conn 1 2 100] (demo_world [])
   \<and> committed (perform_all [Seed Conn 2 (\<lambda>i. 1 + of_nat i) (\<lambda>i. 0), Transfer Conn 1 2 100]
        (demo_world [])) = [\<lparr>ID = 1, Balance = 0\<rparr>, \<lparr>ID = 2, Balance = 200\<rparr>]
   \<and> nonneg (perform_all [Seed Conn 2 (\<lambda>i. 1 + of_nat i) (\<lambda>i. 0), Transfer Conn 1 2 100]
        (demo_world []))"
  using nonneg_preserved
    [of "demo_world []" "[Seed Conn 2 (\<lambda>i. 1 + of_nat i) (\<lambda>i. 0), Transfer Conn 1 2 100]"]
  by (simp add: nonneg_def nonneg_rows_def insertRows_def insertRows_loop.simps transferAmt_def
      eval_defs numeral_2_eq_2)

end
